theory Spec2Isabelle
  imports Main "HOL-Library.AList"
begin

section \<open>JavaScript values used by the start-up code\<close>

text \<open>
  The start-up code only inspects values of type \<open>string | undefined\<close>
  (\<open>import.meta.env[...]\<close>) and \<open>string | null\<close> (\<open>URLSearchParams.get\<close>).
  Both are modelled as \<open>string option\<close>, \<open>None\<close> standing for \<open>undefined\<close>
  respectively \<open>null\<close>.
\<close>

datatype js_error = Error string

text \<open>JavaScript's ToBoolean on such a value: \<open>undefined\<close>, \<open>null\<close> and the empty
  string are falsy, every other string is truthy.\<close>

definition truthy :: "string option \<Rightarrow> bool" where
  "truthy v = (case v of None \<Rightarrow> False | Some s \<Rightarrow> s \<noteq> [])"

text \<open>Interpolation \<open>${v}\<close> inside a template literal: \<open>null\<close> prints as the
  text null, a string prints as itself.\<close>

definition interpolate :: "string option \<Rightarrow> string" where
  "interpolate v = (case v of None \<Rightarrow> ''null'' | Some s \<Rightarrow> s)"

section \<open>src/components/providers/ClerkProvider.tsx\<close>

text \<open>\<open>import.meta.env\<close>: a variable that is not defined reads as \<open>undefined\<close>.\<close>

type_synonym env = "string \<rightharpoonup> string"

definition publishableKey :: "env \<Rightarrow> string option" where
  "publishableKey e = e ''VITE_CLERK_PUBLISHABLE_KEY''"

definition missing_key_message :: string where
  "missing_key_message =
     ''Missing Clerk Publishable Key. Please add VITE_CLERK_PUBLISHABLE_KEY to your .env file.''"

text \<open>The elements that \<open>App\<close> renders, outermost provider first.\<close>

datatype element =
    ClerkReactProvider string element
  | ReduxProvider element
  | ThemeProvider string string element
  | RouterProvider

text \<open>
  Evaluating the module: lines 17 to 23 run once, at import. The \<open>throw\<close> is the
  \<open>Inl\<close> branch; otherwise the module exports the component \<open>ClerkProvider\<close>, a
  function from its children to an element, closed over the key.
\<close>

definition ClerkProvider_module :: "env \<Rightarrow> js_error + (element \<Rightarrow> element)" where
  "ClerkProvider_module e =
     (case publishableKey e of
        None \<Rightarrow> Inl (Error missing_key_message)
      | Some k \<Rightarrow>
          if \<not> truthy (Some k) then Inl (Error missing_key_message)
          else Inr (\<lambda>children. ClerkReactProvider k children))"

section \<open>src/App.tsx\<close>

text \<open>
  \<open>App.tsx\<close> imports \<open>ClerkProvider\<close>; an import whose module throws while it is
  evaluated makes the importing module fail with the same error, before \<open>App\<close> is
  ever called. \<open>App_render\<close> is lines 48 to 56.
\<close>

definition App_render :: "env \<Rightarrow> js_error + element" where
  "App_render e =
     (case ClerkProvider_module e of
        Inl err \<Rightarrow> Inl err
      | Inr ClerkProvider \<Rightarrow>
          Inr (ClerkProvider
                (ReduxProvider (ThemeProvider ''dark'' ''vite-ui-theme'' RouterProvider))))"

text \<open>
  \<open>new URLSearchParams(window.location.search)\<close> is the list of the decoded
  (name, value) pairs of the query string, in order; \<open>get\<close> returns the value of the
  first pair with the given name, or \<open>null\<close>. The parsing is the platform's and is not
  modelled: the effect starts from the list.
\<close>

type_synonym URLSearchParams = "(string \<times> string) list"

fun URLSearchParams_get :: "URLSearchParams \<Rightarrow> string \<Rightarrow> string option" where
  "URLSearchParams_get [] name = None"
| "URLSearchParams_get ((n, v) # rest) name =
     (if n = name then Some v else URLSearchParams_get rest name)"

text \<open>
  The effect of lines 23 to 46. The result is the assignment to
  \<open>window.location.href\<close>: \<open>Some url\<close> when line 43 runs, \<open>None\<close> when it does not.
\<close>

definition App_useEffect :: "URLSearchParams \<Rightarrow> string option" where
  "App_useEffect params =
     (let paymentStatus = URLSearchParams_get params ''payment'';
          eventSlug = URLSearchParams_get params ''event'';
          sessionId = URLSearchParams_get params ''session_id''
      in if truthy paymentStatus \<and> truthy eventSlug then
           (let redirectUrl =
                  (if paymentStatus = Some ''success'' then
                     (if truthy sessionId
                      then ''/events/'' @ interpolate eventSlug @ ''/payment-success?session_id=''
                             @ interpolate sessionId
                      else ''/events/'' @ interpolate eventSlug @ ''/payment-success'')
                   else if paymentStatus = Some ''cancel'' then
                     ''/events/'' @ interpolate eventSlug @ ''/payment-cancel''
                   else '''')
            in if truthy (Some redirectUrl) then Some redirectUrl else None)
         else None)"

section \<open>JSON-compatible values\<close>

text \<open>
  State slices are JSON-compatible values. An object is the list of
  its properties in insertion order; a well-formed object has no property twice.
\<close>

datatype json =
    JNull
  | JBool bool
  | JNum int
  | JStr string
  | JArr "json list"
  | JObj "(string \<times> json) list"

text \<open>
  Object spread \<open>{...d, ...p}\<close>: start from the properties of \<open>d\<close> and assign
  the properties of \<open>p\<close> one after the other; an existing property keeps its place and
  takes the new value, a new property is appended.
\<close>

definition spread :: "(string \<times> json) list \<Rightarrow> (string \<times> json) list \<Rightarrow> (string \<times> json) list" where
  "spread d p = fold (\<lambda>(f, v). AList.update f v) p d"

section \<open>src/unnamed/part_000 (the store's index.ts): the persisted root reducer\<close>

text \<open>
  The root state is an object with one property per slice: \<open>cities\<close>, \<open>events\<close> and
  the RTK Query slice under \<open>apiSlice.reducerPath\<close> (lines 30 to 34). The value of
  \<open>apiSlice.reducerPath\<close> is declared in \<open>store/api/apiSlice\<close>, which is not among the
  sources, so it is a parameter of the configuration.
\<close>

type_synonym RootState = "(string \<times> json) list"

record PersistConfig =
  key :: string
  whitelist :: "string list"
  blacklist :: "string list"

text \<open>Lines 39 to 45. The fields \<open>storage\<close> and \<open>stateReconciler\<close> select the
  storage collaborator and the reconciler \<open>rehydrate\<close> below.\<close>

definition persistConfig :: "string \<Rightarrow> PersistConfig" where
  "persistConfig reducerPath =
     \<lparr> key = ''root'', whitelist = [''cities'', ''events''], blacklist = [reducerPath] \<rparr>"

text \<open>
  Modelled from the spec: the library behind \<open>persistReducer\<close>, \<open>persistStore\<close> and
  \<open>autoMergeLevel2\<close> (redux-persist) is not among the sources; only its configuration
  is. The spec's Persistence Reconciler serializes the whitelisted slices of the
  application state and excludes everything else; \<open>persist\<close> is the persisted payload
  of a root state, a slice being written when the configuration whitelists it and does
  not blacklist it. The textual encoding of a slice is left out: the payload holds the
  value that reading the stored text back yields.
\<close>

definition persist :: "PersistConfig \<Rightarrow> RootState \<Rightarrow> RootState" where
  "persist cfg st =
     filter (\<lambda>(slice, v). slice \<in> set (whitelist cfg) \<and> slice \<notin> set (blacklist cfg)) st"

text \<open>
  Modelled from the spec: the reconciler \<open>autoMergeLevel2\<close> is not among the sources.
  The spec: if the persisted slice is present, merge it one level deep with the default;
  persisted leaf values (arrays, primitives) win wholesale, persisted object values are
  shallow-merged over default object values.
\<close>

definition merge_slice :: "json \<Rightarrow> json \<Rightarrow> json" where
  "merge_slice dflt persisted =
     (case persisted of
        JObj pfs \<Rightarrow> (case dflt of JObj dfs \<Rightarrow> JObj (spread dfs pfs) | _ \<Rightarrow> persisted)
      | _ \<Rightarrow> persisted)"

text \<open>
  Modelled from the spec: on startup, read each whitelisted key from storage; if absent,
  use the slice's default initial state; if present, merge. \<open>dflt\<close> is the in-memory
  initial root state, \<open>payload\<close> what storage holds. Slices that are not whitelisted
  keep their default.
\<close>

definition rehydrate :: "PersistConfig \<Rightarrow> RootState \<Rightarrow> RootState \<Rightarrow> RootState" where
  "rehydrate cfg dflt payload =
     map (\<lambda>(slice, d).
            (slice,
             if slice \<in> set (whitelist cfg)
             then (case map_of payload slice of None \<Rightarrow> d | Some p \<Rightarrow> merge_slice d p)
             else d))
         dflt"

section \<open>Properties of the publishable-key check\<close>

text \<open>
  C9: if the environment variable VITE_CLERK_PUBLISHABLE_KEY is absent or empty, loading
  the ClerkProvider module throws the "Missing Clerk Publishable Key" error, and with it
  the application fails before any provider is rendered; if the variable is set to a
  non-empty string, whatever the string, the check throws nothing: the module exports
  the provider, which passes that key on, and the application renders its provider tree.
\<close>

theorem publishableKey_check:
  "(e ''VITE_CLERK_PUBLISHABLE_KEY'' = None \<or> e ''VITE_CLERK_PUBLISHABLE_KEY'' = Some []
      \<longrightarrow> ClerkProvider_module e = Inl (Error missing_key_message)
          \<and> App_render e = Inl (Error missing_key_message))
   \<and> (\<forall>k. e ''VITE_CLERK_PUBLISHABLE_KEY'' = Some k \<and> k \<noteq> []
      \<longrightarrow> ClerkProvider_module e = Inr (\<lambda>children. ClerkReactProvider k children)
          \<and> App_render e =
              Inr (ClerkReactProvider k
                    (ReduxProvider (ThemeProvider ''dark'' ''vite-ui-theme'' RouterProvider))))"
  by (auto simp: ClerkProvider_module_def App_render_def publishableKey_def truthy_def)

theorem publishableKey_check_witness:
  "ClerkProvider_module Map.empty = Inl (Error missing_key_message)
   \<and> App_render [''VITE_CLERK_PUBLISHABLE_KEY'' \<mapsto> ''''] = Inl (Error missing_key_message)
   \<and> App_render [''VITE_CLERK_PUBLISHABLE_KEY'' \<mapsto> ''pk_test_1''] =
       Inr (ClerkReactProvider ''pk_test_1''
             (ReduxProvider (ThemeProvider ''dark'' ''vite-ui-theme'' RouterProvider)))"
  using publishableKey_check [of Map.empty]
        publishableKey_check [of "[''VITE_CLERK_PUBLISHABLE_KEY'' \<mapsto> '''']"]
        publishableKey_check [of "[''VITE_CLERK_PUBLISHABLE_KEY'' \<mapsto> ''pk_test_1'']"]
  by simp

section \<open>Properties of the payment redirect\<close>

text \<open>
  C10 as the specification states it lets a parameter that is present but empty count as
  present. The code tests the values for truthiness, and the empty string is falsy: for
  \<open>?payment=success&event=\<close> the statement predicts a redirect to
  \<open>/events//payment-success\<close>, and the code does not redirect; for
  \<open>?payment=success&event=rock&session_id=\<close> the statement predicts the suffix
  \<open>?session_id=\<close>, and the code redirects without it.
\<close>

theorem payment_redirect_counterexample:
  "URLSearchParams_get [(''payment'', ''success''), (''event'', '''')] ''payment'' = Some ''success''
   \<and> URLSearchParams_get [(''payment'', ''success''), (''event'', '''')] ''event'' = Some ''''
   \<and> App_useEffect [(''payment'', ''success''), (''event'', '''')] = None
   \<and> URLSearchParams_get [(''payment'', ''success''), (''event'', ''rock''), (''session_id'', '''')]
         ''session_id'' = Some ''''
   \<and> App_useEffect [(''payment'', ''success''), (''event'', ''rock''), (''session_id'', '''')]
         = Some ''/events/rock/payment-success''"
  by (simp add: App_useEffect_def truthy_def interpolate_def)

text \<open>
  C10 (amended): on startup, for every query string whose payment and event parameters
  are both present and non-empty (the value of a parameter being that of its first
  occurrence): if payment equals "success" the application redirects to
  /events/<event>/payment-success, appending ?session_id=<session_id> exactly when a
  session_id parameter is present and non-empty; if payment equals "cancel" it redirects
  to /events/<event>/payment-cancel; for any other payment value, or when either
  parameter is missing or empty, no redirect occurs.
\<close>

theorem payment_redirect:
  "(URLSearchParams_get params ''payment'' = Some ''success''
      \<and> URLSearchParams_get params ''event'' = Some ev \<and> ev \<noteq> []
      \<and> URLSearchParams_get params ''session_id'' = Some sid \<and> sid \<noteq> []
    \<longrightarrow> App_useEffect params =
          Some (''/events/'' @ ev @ ''/payment-success?session_id='' @ sid))
   \<and> (URLSearchParams_get params ''payment'' = Some ''success''
      \<and> URLSearchParams_get params ''event'' = Some ev \<and> ev \<noteq> []
      \<and> (URLSearchParams_get params ''session_id'' = None
           \<or> URLSearchParams_get params ''session_id'' = Some [])
    \<longrightarrow> App_useEffect params = Some (''/events/'' @ ev @ ''/payment-success''))
   \<and> (URLSearchParams_get params ''payment'' = Some ''cancel''
      \<and> URLSearchParams_get params ''event'' = Some ev \<and> ev \<noteq> []
    \<longrightarrow> App_useEffect params = Some (''/events/'' @ ev @ ''/payment-cancel''))
   \<and> (URLSearchParams_get params ''payment'' \<noteq> Some ''success''
      \<and> URLSearchParams_get params ''payment'' \<noteq> Some ''cancel''
    \<longrightarrow> App_useEffect params = None)
   \<and> (URLSearchParams_get params ''event'' = None
      \<or> URLSearchParams_get params ''event'' = Some []
    \<longrightarrow> App_useEffect params = None)"
  by (auto simp: App_useEffect_def truthy_def interpolate_def Let_def split: option.splits)

theorem payment_redirect_witness:
  "App_useEffect [(''payment'', ''success''), (''event'', ''rock''), (''session_id'', ''cs_1'')]
     = Some ''/events/rock/payment-success?session_id=cs_1''
   \<and> App_useEffect [(''payment'', ''success''), (''event'', ''rock'')]
     = Some ''/events/rock/payment-success''
   \<and> App_useEffect [(''payment'', ''cancel''), (''event'', ''rock''), (''session_id'', ''cs_1'')]
     = Some ''/events/rock/payment-cancel''
   \<and> App_useEffect [(''payment'', ''pending''), (''event'', ''rock'')] = None
   \<and> App_useEffect [(''payment'', ''success'')] = None"
  using
    payment_redirect [of "[(''payment'', ''success''), (''event'', ''rock''), (''session_id'', ''cs_1'')]"
                         "''rock''" "''cs_1''"]
    payment_redirect [of "[(''payment'', ''success''), (''event'', ''rock'')]" "''rock''"]
    payment_redirect [of "[(''payment'', ''cancel''), (''event'', ''rock''), (''session_id'', ''cs_1'')]"
                         "''rock''"]
    payment_redirect [of "[(''payment'', ''pending''), (''event'', ''rock'')]"]
    payment_redirect [of "[(''payment'', ''success'')]"]
  by simp

section \<open>Properties of persistence and rehydration\<close>

lemma map_of_spread:
  "distinct (map fst p) \<Longrightarrow> map_of (spread d p) = map_of d ++ map_of p"
proof (induction p arbitrary: d)
  case Nil
  then show ?case by (simp add: spread_def)
next
  case (Cons a p)
  obtain f v where a: "a = (f, v)" by (cases a)
  from Cons.prems a have nf: "f \<notin> dom (map_of p)" and dp: "distinct (map fst p)"
    by (auto simp: dom_map_of_conv_image_fst)
  have "map_of (spread d (a # p)) = map_of (spread (AList.update f v d) p)"
    by (simp add: spread_def a)
  also have "\<dots> = (map_of d)(f \<mapsto> v) ++ map_of p"
    by (simp only: Cons.IH [OF dp] update_conv')
  also have "\<dots> = map_of d ++ map_of (a # p)"
    using nf by (auto simp: a map_add_def fun_eq_iff split: option.splits)
  finally show ?case .
qed

lemma keys_spread:
  "set (map fst p) \<subseteq> set (map fst d) \<Longrightarrow> map fst (spread d p) = map fst d"
proof (induction p arbitrary: d)
  case Nil
  then show ?case by (simp add: spread_def)
next
  case (Cons a p)
  obtain f v where a: "a = (f, v)" by (cases a)
  from Cons.prems a have fd: "f \<in> set (map fst d)" and sub: "set (map fst p) \<subseteq> set (map fst d)"
    by auto
  have k: "map fst (AList.update f v d) = map fst d"
    using fd by (simp add: update_keys)
  have "map fst (spread d (a # p)) = map fst (spread (AList.update f v d) p)"
    by (simp add: spread_def a)
  also have "\<dots> = map fst (AList.update f v d)"
    using sub k by (intro Cons.IH) simp
  finally show ?case using k by simp
qed

lemma map_of_rehydrate:
  "map_of (rehydrate cfg dflt payload) slice =
     (case map_of dflt slice of
        None \<Rightarrow> None
      | Some d \<Rightarrow>
          Some (if slice \<in> set (whitelist cfg)
                then (case map_of payload slice of None \<Rightarrow> d | Some p \<Rightarrow> merge_slice d p)
                else d))"
proof (induction dflt)
  case Nil
  then show ?case by (simp add: rehydrate_def)
next
  case (Cons a dflt)
  obtain s d where a: "a = (s, d)" by (cases a)
  have unfold: "rehydrate cfg (a # dflt) payload =
      (s, if s \<in> set (whitelist cfg)
          then (case map_of payload s of None \<Rightarrow> d | Some p \<Rightarrow> merge_slice d p)
          else d) # rehydrate cfg dflt payload"
    by (simp add: rehydrate_def a)
  show ?case
    unfolding unfold using Cons.IH by (simp add: a)
qed

lemma merge_slice_leaf:
  "(\<forall>sfs. s \<noteq> JObj sfs) \<or> (\<forall>dfs. d \<noteq> JObj dfs) \<Longrightarrow> merge_slice d s = s"
  by (cases s; cases d) (simp_all add: merge_slice_def)

lemma map_of_persist:
  "map_of (persist cfg st) slice =
     (if slice \<in> set (whitelist cfg) \<and> slice \<notin> set (blacklist cfg) then map_of st slice else None)"
  by (induction st) (auto simp: persist_def)

text \<open>
  C1: take a root state \<open>st\<close> that is persisted and a default initial state \<open>dflt\<close>,
  and rehydrate at startup. For each whitelisted slice (cities, events; the RTK Query
  slice is excluded, so the slice is not \<open>reducerPath\<close>) that the default state has:
  if nothing was persisted for the slice, it takes the default; a persisted array or
  primitive is taken wholesale (as is any persisted value when the default is not an
  object); a persisted object is merged one level deep over a default object, so that
  every key present in the persisted slice takes the persisted value, whole, and every
  key absent from it takes the default value, and when the default's keys are a superset
  of the persisted ones the result has exactly the default's keys. In particular,
  reconciling the persisted payload {cities:{selected:"sf"}} against the default
  {cities:{selected:null, list:[]}} yields {cities:{selected:"sf", list:[]}}.
\<close>

theorem rehydrate_merges_one_level:
  assumes wl: "slice = ''cities'' \<or> slice = ''events''"
    and nb: "slice \<noteq> reducerPath"
    and d: "map_of dflt slice = Some d"
  shows "(map_of st slice = None \<longrightarrow>
            map_of (rehydrate (persistConfig reducerPath) dflt (persist (persistConfig reducerPath) st)) slice
              = Some d)
    \<and> (\<forall>s. map_of st slice = Some s \<and> ((\<forall>sfs. s \<noteq> JObj sfs) \<or> (\<forall>dfs. d \<noteq> JObj dfs)) \<longrightarrow>
            map_of (rehydrate (persistConfig reducerPath) dflt (persist (persistConfig reducerPath) st)) slice
              = Some s)
    \<and> (\<forall>sfs dfs. map_of st slice = Some (JObj sfs) \<and> distinct (map fst sfs) \<and> d = JObj dfs \<longrightarrow>
          (\<exists>r. map_of (rehydrate (persistConfig reducerPath) dflt (persist (persistConfig reducerPath) st))
                  slice = Some (JObj r)
             \<and> (\<forall>f v. map_of sfs f = Some v \<longrightarrow> map_of r f = Some v)
             \<and> (\<forall>f. map_of sfs f = None \<longrightarrow> map_of r f = map_of dfs f)
             \<and> (set (map fst sfs) \<subseteq> set (map fst dfs) \<longrightarrow> map fst r = map fst dfs)))
    \<and> rehydrate (persistConfig reducerPath)
         [(''cities'', JObj [(''selected'', JNull), (''list'', JArr [])])]
         [(''cities'', JObj [(''selected'', JStr ''sf'')])]
       = [(''cities'', JObj [(''selected'', JStr ''sf''), (''list'', JArr [])])]"
proof -
  define cfg where "cfg = persistConfig reducerPath"
  define out where "out = map_of (rehydrate cfg dflt (persist cfg st)) slice"
  have w: "slice \<in> set (whitelist cfg)" and b: "slice \<notin> set (blacklist cfg)"
    using wl nb by (auto simp: cfg_def persistConfig_def)
  have payload: "map_of (persist cfg st) slice = map_of st slice"
    using w b by (simp add: map_of_persist)
  have r: "out = Some (case map_of st slice of None \<Rightarrow> d | Some p \<Rightarrow> merge_slice d p)"
    using w d by (simp add: out_def map_of_rehydrate payload)
  have 1: "map_of st slice = None \<longrightarrow> out = Some d"
    by (simp add: r)
  have 2: "\<forall>s. map_of st slice = Some s \<and> ((\<forall>sfs. s \<noteq> JObj sfs) \<or> (\<forall>dfs. d \<noteq> JObj dfs)) \<longrightarrow>
            out = Some s"
    by (simp add: r merge_slice_leaf)
  have 3: "\<forall>sfs dfs. map_of st slice = Some (JObj sfs) \<and> distinct (map fst sfs) \<and> d = JObj dfs \<longrightarrow>
          (\<exists>r. out = Some (JObj r)
             \<and> (\<forall>f v. map_of sfs f = Some v \<longrightarrow> map_of r f = Some v)
             \<and> (\<forall>f. map_of sfs f = None \<longrightarrow> map_of r f = map_of dfs f)
             \<and> (set (map fst sfs) \<subseteq> set (map fst dfs) \<longrightarrow> map fst r = map fst dfs))"
  proof (intro allI impI)
    fix sfs dfs
    assume h: "map_of st slice = Some (JObj sfs) \<and> distinct (map fst sfs) \<and> d = JObj dfs"
    have a: "out = Some (JObj (spread dfs sfs))"
      using h by (simp add: r merge_slice_def)
    have b: "\<forall>f v. map_of sfs f = Some v \<longrightarrow> map_of (spread dfs sfs) f = Some v"
      using h by (simp add: map_of_spread)
    have c: "\<forall>f. map_of sfs f = None \<longrightarrow> map_of (spread dfs sfs) f = map_of dfs f"
      using h by (simp add: map_of_spread map_add_def)
    have e: "set (map fst sfs) \<subseteq> set (map fst dfs) \<longrightarrow> map fst (spread dfs sfs) = map fst dfs"
      by (simp add: keys_spread)
    show "\<exists>r. out = Some (JObj r)
             \<and> (\<forall>f v. map_of sfs f = Some v \<longrightarrow> map_of r f = Some v)
             \<and> (\<forall>f. map_of sfs f = None \<longrightarrow> map_of r f = map_of dfs f)
             \<and> (set (map fst sfs) \<subseteq> set (map fst dfs) \<longrightarrow> map fst r = map fst dfs)"
      using a b c e by (intro exI [of _ "spread dfs sfs"] conjI)
  qed
  have 4: "rehydrate cfg
         [(''cities'', JObj [(''selected'', JNull), (''list'', JArr [])])]
         [(''cities'', JObj [(''selected'', JStr ''sf'')])]
       = [(''cities'', JObj [(''selected'', JStr ''sf''), (''list'', JArr [])])]"
    by (simp add: cfg_def rehydrate_def persistConfig_def merge_slice_def spread_def)
  show ?thesis
    using 1 2 3 4 unfolding out_def cfg_def by (intro conjI)
qed

theorem rehydrate_merges_one_level_witness:
  "rehydrate (persistConfig ''api'')
     [(''cities'', JObj [(''selected'', JNull), (''list'', JArr [])]), (''events'', JArr []),
      (''api'', JObj [])]
     (persist (persistConfig ''api'')
        [(''cities'', JObj [(''selected'', JStr ''sf'')]), (''events'', JArr [JNum 1]),
         (''api'', JObj [(''queries'', JObj [])])])
   = [(''cities'', JObj [(''selected'', JStr ''sf''), (''list'', JArr [])]),
      (''events'', JArr [JNum 1]), (''api'', JObj [])]
   \<and> (\<exists>r. map_of (rehydrate (persistConfig ''api'')
                     [(''cities'', JObj [(''selected'', JNull), (''list'', JArr [])]),
                      (''events'', JArr []), (''api'', JObj [])]
                     (persist (persistConfig ''api'')
                        [(''cities'', JObj [(''selected'', JStr ''sf'')]), (''events'', JArr [JNum 1]),
                         (''api'', JObj [(''queries'', JObj [])])]))
               ''cities'' = Some (JObj r)
          \<and> map_of r ''selected'' = Some (JStr ''sf'')
          \<and> map_of r ''list'' = Some (JArr [])
          \<and> map fst r = [''selected'', ''list''])"
proof -
  let ?d = "[(''cities'', JObj [(''selected'', JNull), (''list'', JArr [])]), (''events'', JArr []),
      (''api'', JObj [])]"
  let ?s = "[(''cities'', JObj [(''selected'', JStr ''sf'')]), (''events'', JArr [JNum 1]),
         (''api'', JObj [(''queries'', JObj [])])]"
  have h1: "''cities'' = ''cities'' \<or> ''cities'' = ''events''" by simp
  have h2: "''cities'' \<noteq> ''api''" by simp
  have h3: "map_of ?d ''cities'' = Some (JObj [(''selected'', JNull), (''list'', JArr [])])" by simp
  have g: "map_of ?s ''cities'' = Some (JObj [(''selected'', JStr ''sf'')])
           \<and> distinct (map fst [(''selected'', JStr ''sf'')])
           \<and> JObj [(''selected'', JNull), (''list'', JArr [])] = JObj [(''selected'', JNull), (''list'', JArr [])]"
    by simp
  have m1: "map_of [(''selected'', JStr ''sf'')] ''selected'' = Some (JStr ''sf'')" by simp
  have m2: "map_of [(''selected'', JStr ''sf'')] ''list'' = None" by simp
  have m3: "set (map fst [(''selected'', JStr ''sf'')]) \<subseteq> set (map fst [(''selected'', JNull), (''list'', JArr [])])"
    by simp
  have whole: "rehydrate (persistConfig ''api'') ?d (persist (persistConfig ''api'') ?s)
     = [(''cities'', JObj [(''selected'', JStr ''sf''), (''list'', JArr [])]),
        (''events'', JArr [JNum 1]), (''api'', JObj [])]"
    by (simp add: rehydrate_def persist_def persistConfig_def merge_slice_def spread_def)
  from rehydrate_merges_one_level [OF h1 h2 h3, of ?s]
  obtain r where r: "map_of (rehydrate (persistConfig ''api'') ?d (persist (persistConfig ''api'') ?s))
                       ''cities'' = Some (JObj r)"
      "\<forall>f v. map_of [(''selected'', JStr ''sf'')] f = Some v \<longrightarrow> map_of r f = Some v"
      "\<forall>f. map_of [(''selected'', JStr ''sf'')] f = None \<longrightarrow>
            map_of r f = map_of [(''selected'', JNull), (''list'', JArr [])] f"
      "set (map fst [(''selected'', JStr ''sf'')]) \<subseteq> set (map fst [(''selected'', JNull), (''list'', JArr [])])
         \<longrightarrow> map fst r = map fst [(''selected'', JNull), (''list'', JArr [])]"
    using g by blast
  have f1: "map_of r ''selected'' = Some (JStr ''sf'')" using r(2) m1 by blast
  have f2: "map_of r ''list'' = Some (JArr [])" using r(3) m2 by simp
  have f3: "map fst r = [''selected'', ''list'']" using r(4) m3 by simp
  show ?thesis using whole r(1) f1 f2 f3 by (intro conjI exI [of _ r])
qed

text \<open>
  C4: whatever the root state, the persisted payload contains only the whitelisted domain
  slices cities and events, each with the value it has in the state; the RTK Query slice
  under \<open>apiSlice.reducerPath\<close>, which is where the store keeps the query cache, its
  tags and its mutations, is never written, and neither is any other slice. After a
  reload every such slice is the default initial state again, so the cache starts empty
  and is rebuilt from the network.
\<close>

theorem persist_whitelisted_only:
  "set (map fst (persist (persistConfig reducerPath) st)) \<subseteq> {''cities'', ''events''}
   \<and> reducerPath \<notin> set (map fst (persist (persistConfig reducerPath) st))
   \<and> set (persist (persistConfig reducerPath) st) \<subseteq> set st
   \<and> (\<forall>slice. slice = reducerPath \<or> (slice \<noteq> ''cities'' \<and> slice \<noteq> ''events'') \<longrightarrow>
         map_of (persist (persistConfig reducerPath) st) slice = None
         \<and> map_of (rehydrate (persistConfig reducerPath) dflt (persist (persistConfig reducerPath) st)) slice
             = map_of dflt slice)"
proof -
  have 1: "set (map fst (persist (persistConfig reducerPath) st)) \<subseteq> {''cities'', ''events''}"
    by (auto simp: persist_def persistConfig_def)
  have 2: "reducerPath \<notin> set (map fst (persist (persistConfig reducerPath) st))"
    by (auto simp: persist_def persistConfig_def)
  have 3: "set (persist (persistConfig reducerPath) st) \<subseteq> set st"
    by (auto simp: persist_def)
  have 4: "\<forall>slice. slice = reducerPath \<or> (slice \<noteq> ''cities'' \<and> slice \<noteq> ''events'') \<longrightarrow>
         map_of (persist (persistConfig reducerPath) st) slice = None
         \<and> map_of (rehydrate (persistConfig reducerPath) dflt (persist (persistConfig reducerPath) st)) slice
             = map_of dflt slice"
    by (auto simp: map_of_persist map_of_rehydrate persistConfig_def split: option.splits)
  from 1 2 3 4 show ?thesis by (intro conjI)
qed

theorem persist_whitelisted_only_witness:
  "persist (persistConfig ''api'')
     [(''cities'', JObj [(''selected'', JStr ''sf'')]), (''events'', JArr [JNum 1]),
      (''api'', JObj [(''queries'', JObj [(''getEvents'', JNull)])])]
   = [(''cities'', JObj [(''selected'', JStr ''sf'')]), (''events'', JArr [JNum 1])]
   \<and> map_of (rehydrate (persistConfig ''api'')
               [(''cities'', JObj []), (''events'', JArr []), (''api'', JObj [(''queries'', JObj [])])]
               (persist (persistConfig ''api'')
                  [(''cities'', JObj [(''selected'', JStr ''sf'')]), (''events'', JArr [JNum 1]),
                   (''api'', JObj [(''queries'', JObj [(''getEvents'', JNull)])])]))
        ''api''
      = Some (JObj [(''queries'', JObj [])])"
  using persist_whitelisted_only [of "''api''"
      "[(''cities'', JObj [(''selected'', JStr ''sf'')]), (''events'', JArr [JNum 1]),
        (''api'', JObj [(''queries'', JObj [(''getEvents'', JNull)])])]"
      "[(''cities'', JObj []), (''events'', JArr []), (''api'', JObj [(''queries'', JObj [])])]"]
  by (simp add: persist_def persistConfig_def)

end
